theory Spec2Isabelle
  imports Main "HOL-Library.Sublist"
begin

section \<open>The combination store\<close>

text \<open>
  A document of the \<open>combinations\<close> collection, as \<open>generate_combinations\<close> writes it and
  \<open>update_combination_status\<close> updates it. The field \<open>results_count\<close> is optional in the
  store: \<open>None\<close> is a document without the field. Timestamps are readings of a clock.
\<close>

datatype status = Pending | In_progress | Completed | Failed

record combination =
  location :: string
  employee_ranges :: string
  industry_id :: string
  industry_name :: string
  status :: status
  results_count :: "int option"
  created_at :: nat
  updated_at :: nat

text \<open>
  The world the commands run in: the collection in store order, the clock behind
  \<open>timezone.now()\<close> (every reading advances it), and two traces kept for the statements
  below, the argument of every \<open>bulk_write\<close> call and the key of every search started.
\<close>

type_synonym upsert_op = "(string \<times> string) \<times> combination"

record world =
  combinations :: "combination list"
  clock :: nat
  bulk_writes :: "upsert_op list list"
  searched :: "(string \<times> string) list"

definition matches :: "string \<times> string \<Rightarrow> combination \<Rightarrow> bool" where
  "matches k d \<longleftrightarrow> location d = fst k \<and> industry_name d = snd k"

definition count_documents :: "(combination \<Rightarrow> bool) \<Rightarrow> world \<Rightarrow> nat" where
  "count_documents q w = length (filter q (combinations w))"

definition timezone_now :: "world \<Rightarrow> nat \<times> world" where
  "timezone_now w = (clock w, w\<lparr>clock := Suc (clock w)\<rparr>)"

text \<open>
  The exceptions the code meets. All of them derive from Python's \<open>Exception\<close>, so an
  \<open>except Exception\<close> clause catches each of them. Termination of the process (a signal,
  \<open>KeyboardInterrupt\<close>) is not an exception of a collaborator and is not modelled.
\<close>

datatype exception = NameError | JSONDecodeError | BulkWriteError | InvalidId | Other string

subsection \<open>Conditional inserts\<close>

text \<open>
  \<open>UpdateOne(filter, {"$setOnInsert": combination}, upsert=True)\<close>: when a document matches
  the filter nothing is written; otherwise the combination is inserted (the filter's two
  fields are the combination's own).
\<close>

definition upsert_one :: "upsert_op \<Rightarrow> combination list \<Rightarrow> combination list" where
  "upsert_one op docs = (if (\<exists>d \<in> set docs. matches (fst op) d) then docs else docs @ [snd op])"

text \<open>
  The outcome of one \<open>bulk_write\<close> call is the environment's: it returns, or it raises
  after some of its operations took effect (the flags say which: the write is unordered,
  so a failing operation does not stop the others).
\<close>

datatype bulk_result = Bulk_ok | Bulk_raises exception "bool list"

definition applied_ops :: "bulk_result \<Rightarrow> upsert_op list \<Rightarrow> upsert_op list" where
  "applied_ops r ops =
     (case r of Bulk_ok \<Rightarrow> ops | Bulk_raises e took \<Rightarrow> map fst (filter snd (zip ops took)))"

definition bulk_write :: "bulk_result \<Rightarrow> upsert_op list \<Rightarrow> world \<Rightarrow> (exception + nat) \<times> world" where
  "bulk_write r ops w =
     (let docs = fold upsert_one (applied_ops r ops) (combinations w);
          w' = w\<lparr>combinations := docs, bulk_writes := bulk_writes w @ [ops]\<rparr>
      in case r of
           Bulk_ok \<Rightarrow> (Inr (length docs - length (combinations w)), w')
         | Bulk_raises e took \<Rightarrow> (Inl e, w'))"

section \<open>The generator (\<open>generate_combinations\<close>)\<close>

record gen_state =
  current_batch :: "upsert_op list"
  new_combinations_count :: nat
  processed_count :: nat

record stats =
  total_combinations :: nat
  pending_count :: nat
  completed_count :: nat
  failed_count :: nat
  in_progress_count :: nat
  new_added :: "nat option"
  skipped_generation :: bool

text \<open>
  The body of the \<open>for\<close> loop up to the batch test: two clock readings, the combination,
  and the operation appended to the batch. An item of the product is
  \<open>(location, ranges, industry_name, industry_id)\<close>: the industry tags are the items of the
  JSON object, \<open>apollo_industries\<close> its keys, and \<open>industry_tags[industry]\<close> the value
  beside the key.
\<close>

definition buffer_combination ::
  "string \<times> string \<times> string \<times> string \<Rightarrow> gen_state \<Rightarrow> world \<Rightarrow> gen_state \<times> world" where
  "buffer_combination x g w =
     (case x of (loc, ranges, industry, iid) \<Rightarrow>
        let (t1, w1) = timezone_now w;
            (t2, w2) = timezone_now w1;
            combination = \<lparr>location = loc, employee_ranges = ranges, industry_id = iid,
              industry_name = industry, status = Pending, results_count = None,
              created_at = t1, updated_at = t2\<rparr>
        in (g\<lparr>current_batch := current_batch g @ [((loc, industry), combination)],
              processed_count := Suc (processed_count g)\<rparr>, w2))"

text \<open>
  One \<open>bulk_write\<close> of the current batch inside its \<open>try\<close>: on return the upserted count
  is added, on an exception the error is printed; the batch is emptied on both paths.
  The environment's answer to the \<open>k\<close>-th \<open>bulk_write\<close> call is \<open>bulk k\<close>.
\<close>

definition flush_batch :: "(nat \<Rightarrow> bulk_result) \<Rightarrow> gen_state \<Rightarrow> world \<Rightarrow> gen_state \<times> world" where
  "flush_batch bulk g w =
     (case bulk_write (bulk (length (bulk_writes w))) (current_batch g) w of
        (Inr upserted, w') \<Rightarrow>
          (g\<lparr>new_combinations_count := new_combinations_count g + upserted,
             current_batch := []\<rparr>, w')
      | (Inl e, w') \<Rightarrow> (g\<lparr>current_batch := []\<rparr>, w'))"

fun generation_loop ::
  "(nat \<Rightarrow> bulk_result) \<Rightarrow> nat \<Rightarrow> (string \<times> string \<times> string \<times> string) list \<Rightarrow>
   gen_state \<Rightarrow> world \<Rightarrow> gen_state \<times> world" where
  "generation_loop bulk batch_size [] g w = (g, w)"
| "generation_loop bulk batch_size (x # rest) g w =
     (case buffer_combination x g w of (g1, w1) \<Rightarrow>
        if length (current_batch g1) \<ge> batch_size then
          (case flush_batch bulk g1 w1 of (g2, w2) \<Rightarrow> generation_loop bulk batch_size rest g2 w2)
        else generation_loop bulk batch_size rest g1 w1)"

text \<open>The last batch: written only when it is not empty; its error is printed too.\<close>

definition flush_remaining :: "(nat \<Rightarrow> bulk_result) \<Rightarrow> gen_state \<Rightarrow> world \<Rightarrow> gen_state \<times> world" where
  "flush_remaining bulk g w =
     (if current_batch g \<noteq> [] then
        (case bulk_write (bulk (length (bulk_writes w))) (current_batch g) w of
           (Inr upserted, w') \<Rightarrow>
             (g\<lparr>new_combinations_count := new_combinations_count g + upserted\<rparr>, w')
         | (Inl e, w') \<Rightarrow> (g, w'))
      else (g, w))"

definition status_counts :: "world \<Rightarrow> nat \<times> nat \<times> nat \<times> nat" where
  "status_counts w =
     (count_documents (\<lambda>d. status d = Pending) w,
      count_documents (\<lambda>d. status d = Completed) w,
      count_documents (\<lambda>d. status d = Failed) w,
      count_documents (\<lambda>d. status d = In_progress) w)"

definition employee_ranges_list :: "string list" where
  "employee_ranges_list = [''1-10, 10-20, 20-50, 50-100, 100-200'']"

text \<open>
  \<open>generate_combinations\<close>, with the two data files already read: \<open>locations\<close> is the
  column of the CSV file, \<open>industry_tags\<close> the items of the JSON object. The batch size is
  the local constant of the source, 100000.
\<close>

definition generate_with ::
  "nat \<Rightarrow> (nat \<Rightarrow> bulk_result) \<Rightarrow> string list \<Rightarrow> (string \<times> string) list \<Rightarrow> world \<Rightarrow> stats \<times> world" where
  "generate_with batch_size bulk locations industry_tags w =
     (let apollo_industries = map fst industry_tags;
          total_potential = length locations * length employee_ranges_list * length apollo_industries;
          existing_count = count_documents (\<lambda>d. True) w
      in if existing_count = total_potential then
           (case status_counts w of (p, c, f, i) \<Rightarrow>
              (\<lparr>total_combinations = total_potential, pending_count = p, completed_count = c,
                failed_count = f, in_progress_count = i, new_added = None,
                skipped_generation = True\<rparr>, w))
         else
           (case generation_loop bulk batch_size
                   (List.product locations (List.product employee_ranges_list industry_tags))
                   \<lparr>current_batch = [], new_combinations_count = 0, processed_count = 0\<rparr> w of
              (g1, w1) \<Rightarrow>
                (case flush_remaining bulk g1 w1 of (g2, w2) \<Rightarrow>
                   (case status_counts w2 of (p, c, f, i) \<Rightarrow>
                      (\<lparr>total_combinations = count_documents (\<lambda>d. True) w2, pending_count = p,
                        completed_count = c, failed_count = f, in_progress_count = i,
                        new_added = Some (new_combinations_count g2),
                        skipped_generation = False\<rparr>, w2)))))"

definition generate_combinations ::
  "(nat \<Rightarrow> bulk_result) \<Rightarrow> string list \<Rightarrow> (string \<times> string) list \<Rightarrow> world \<Rightarrow> stats \<times> world" where
  "generate_combinations = generate_with 100000"

section \<open>Status updates (\<open>update_combination_status\<close>)\<close>

text \<open>\<open>update_one\<close> of the driver: the first document that matches is updated, no upsert.\<close>

fun update_one :: "('a \<Rightarrow> bool) \<Rightarrow> ('a \<Rightarrow> 'a) \<Rightarrow> 'a list \<Rightarrow> 'a list" where
  "update_one q f [] = []"
| "update_one q f (d # ds) = (if q d then f d # ds else d # update_one q f ds)"

text \<open>
  The \<open>$set\<close> document holds \<open>status\<close> and \<open>updated_at\<close>, and \<open>results_count\<close> only when
  the argument is not \<open>None\<close>; a field that is not in it keeps its stored value.
\<close>

definition update_combination_status ::
  "string \<Rightarrow> string \<Rightarrow> status \<Rightarrow> int option \<Rightarrow> world \<Rightarrow> world" where
  "update_combination_status loc industry st rc w =
     (case timezone_now w of (now, w1) \<Rightarrow>
        w1\<lparr>combinations :=
          update_one (matches (loc, industry))
            (\<lambda>d. d\<lparr>status := st, updated_at := now,
                    results_count := (case rc of None \<Rightarrow> results_count d | Some c \<Rightarrow> Some c)\<rparr>)
            (combinations w1)\<rparr>)"

section \<open>The search (\<open>search_apollo_and_save_to_mongodb\<close>)\<close>

text \<open>
  What the vendor's two endpoints answer is the environment's. A reply to the details
  request raises inside the \<open>try\<close> of \<open>fetch_organization_details\<close> (the post or the parse
  of its body), or it has a status code. A reply to the search request raises, or it has a
  status code and a body: not JSON, JSON that is not an object, or a page with the ids of
  its organizations (the empty string for a missing id), whether it says
  \<open>has_next_page = False\<close>, the reply to the details request of that page, and the
  exception, if any, of saving the page's organizations.
\<close>

datatype details_reply = Details_raises exception | Details_status nat

datatype batch_details = No_organizations | Snippets

datatype page_body =
    Not_json
  | Json_not_object
  | Json_page "string list" bool details_reply "exception option"

datatype search_reply = Post_raises exception | Http_response nat page_body

text \<open>
  \<open>fetch_organization_details\<close>. Its handler prints the exception and then evaluates
  \<open>sys.exit(1)\<close>; the module does not import \<open>sys\<close>, so the name lookup raises
  \<open>NameError\<close>, which leaves the function in place of the exit.
\<close>

definition fetch_organization_details :: "string list \<Rightarrow> details_reply \<Rightarrow> exception + batch_details" where
  "fetch_organization_details org_ids reply =
     (if org_ids = [] then Inr No_organizations
      else case reply of
             Details_raises e \<Rightarrow> Inl NameError
           | Details_status code \<Rightarrow> if code = 200 then Inr Snippets else Inr No_organizations)"

record search_state =
  all_organization_ids :: "string list"
  total_results_found :: int
  page :: nat
  more_results :: bool

text \<open>The ids of a page that are not empty and not seen before, and the ids seen so far.\<close>

fun collect_ids :: "string list \<Rightarrow> string list \<Rightarrow> string list \<times> string list" where
  "collect_ids [] seen = ([], seen)"
| "collect_ids (org_id # orgs) seen =
     (if org_id \<noteq> [] \<and> org_id \<notin> set seen then
        (case collect_ids orgs (seen @ [org_id]) of (cur, seen') \<Rightarrow> (org_id # cur, seen'))
      else collect_ids orgs seen)"

text \<open>
  The inner \<open>try\<close> block of one page, up to the point where it ends or raises: the state
  reached and the exception raised there, if any.
\<close>

definition process_page :: "page_body \<Rightarrow> search_state \<Rightarrow> search_state \<times> exception option" where
  "process_page body s =
     (case body of
        Not_json \<Rightarrow> (s, Some JSONDecodeError)
      | Json_not_object \<Rightarrow> (s, Some (Other ''AttributeError''))
      | Json_page organizations no_next_page reply save_error \<Rightarrow>
          (case collect_ids organizations (all_organization_ids s) of
             (current_page_ids, seen) \<Rightarrow>
               let s1 = s\<lparr>all_organization_ids := seen,
                          total_results_found := total_results_found s + int (length organizations)\<rparr>;
                   s2 = (if length organizations < 25 then s1\<lparr>more_results := False\<rparr>
                         else if no_next_page then s1\<lparr>more_results := False\<rparr>
                         else s1\<lparr>page := page s1 + 1\<rparr>)
               in if current_page_ids \<noteq> [] then
                    (case fetch_organization_details current_page_ids reply of
                       Inl e \<Rightarrow> (s2, Some e)
                     | Inr No_organizations \<Rightarrow> (s2, None)
                     | Inr Snippets \<Rightarrow> (s2, save_error))
                  else (s2, None)))"

text \<open>
  One turn of the \<open>while\<close> loop after the post returned: the inner \<open>try\<close> with its
  \<open>except json.JSONDecodeError\<close>, then the test of the status code. \<open>Inl\<close> is an
  exception that leaves the loop.
\<close>

definition after_post :: "nat \<Rightarrow> page_body \<Rightarrow> search_state \<Rightarrow> exception + search_state" where
  "after_post code body s =
     (case process_page body s of
        (s1, Some e) \<Rightarrow>
          if e = JSONDecodeError then Inr (s1\<lparr>more_results := False\<rparr>) else Inl e
      | (s1, None) \<Rightarrow> Inr (if code \<noteq> 200 then s1\<lparr>more_results := False\<rparr> else s1))"

text \<open>
  The \<open>while more_results\<close> loop over the replies the environment gives, in order. The loop
  has no bound of its own: \<open>None\<close> is a run that is still asking when the replies end.
\<close>

fun paginate :: "search_reply list \<Rightarrow> search_state \<Rightarrow> (exception + int) option" where
  "paginate [] s = None"
| "paginate (Post_raises e # replies) s = Some (Inl e)"
| "paginate (Http_response code body # replies) s =
     (case after_post code body s of
        Inl e \<Rightarrow> Some (Inl e)
      | Inr s' \<Rightarrow>
          if more_results s' then paginate replies s' else Some (Inr (total_results_found s')))"

text \<open>
  The body of the outer \<open>try\<close>: the two files loaded, then the pages. \<open>load\<close> tells
  whether \<open>load_json_file\<close> raises on a path. The parse of the employee ranges and the
  random session id only shape the request.
\<close>

definition try_search ::
  "(string \<Rightarrow> exception option) \<Rightarrow> search_reply list \<Rightarrow> string \<Rightarrow> string \<Rightarrow> (exception + int) option" where
  "try_search load replies cookies headers =
     (case load cookies of
        Some e \<Rightarrow> Some (Inl e)
      | None \<Rightarrow>
          (case load headers of
             Some e \<Rightarrow> Some (Inl e)
           | None \<Rightarrow>
               paginate replies
                 \<lparr>all_organization_ids = [], total_results_found = 0, page = 1,
                   more_results = True\<rparr>))"

text \<open>
  The whole function: the status \<open>in_progress\<close> first, then the \<open>try\<close>, then
  \<open>completed\<close> with the count, or \<open>failed\<close> and the exception raised again.
\<close>

definition search_apollo_and_save_to_mongodb ::
  "(string \<Rightarrow> exception option) \<Rightarrow> search_reply list \<Rightarrow> string \<Rightarrow> string \<Rightarrow> string \<Rightarrow> string \<Rightarrow>
   string \<Rightarrow> string \<Rightarrow> world \<Rightarrow> ((exception + int) \<times> world) option" where
  "search_apollo_and_save_to_mongodb load replies loc ranges iid industry cookies headers w =
     (let w1 = update_combination_status loc industry In_progress None
                 (w\<lparr>searched := searched w @ [(loc, industry)]\<rparr>)
      in case try_search load replies cookies headers of
           None \<Rightarrow> None
         | Some (Inr found) \<Rightarrow>
             Some (Inr found, update_combination_status loc industry Completed (Some found) w1)
         | Some (Inl e) \<Rightarrow>
             Some (Inl e, update_combination_status loc industry Failed None w1))"

section \<open>The command (\<open>fetch_apollo_data\<close>)\<close>

record options =
  opt_location :: "string option"
  opt_industry :: "string option"
  opt_limit :: "int option"
  cookies_file :: string
  headers_file :: string
  reset_failed :: bool
  opt_status :: "status option"
  skip_generation :: bool
  batch_size :: int

record env =
  path_exists :: "string \<Rightarrow> bool"
  load_json_file :: "string \<Rightarrow> exception option"
  locations :: "string list"
  industry_tags :: "(string \<times> string) list"
  bulk :: "nat \<Rightarrow> bulk_result"
  replies :: "nat \<Rightarrow> search_reply list"
  pcre :: "string \<Rightarrow> string \<Rightarrow> bool"

subsection \<open>Reset of the failed combinations\<close>

definition reset_failed_combinations :: "world \<Rightarrow> world" where
  "reset_failed_combinations w =
     (case timezone_now w of (now, w1) \<Rightarrow>
        w1\<lparr>combinations :=
          map (\<lambda>d. if status d = Failed then d\<lparr>status := Pending, updated_at := now\<rparr> else d)
            (combinations w1)\<rparr>)"

subsection \<open>The selector\<close>

text \<open>
  The store's \<open>$regex\<close> with option \<open>i\<close> is a search for a match of the pattern anywhere
  in the field, letters compared without case. The patterns evaluated here are those of
  ordinary characters and the dot, which stands for any character but a newline; for a
  pattern with another special character the answer is the environment's (\<open>pcre\<close>).
\<close>

definition to_lower :: "char \<Rightarrow> char" where
  "to_lower c =
     (case map_of (zip ''ABCDEFGHIJKLMNOPQRSTUVWXYZ'' ''abcdefghijklmnopqrstuvwxyz'') c of
        Some l \<Rightarrow> l | None \<Rightarrow> c)"

definition regex_special :: "char list" where
  "regex_special = ''^$*+?()[]{}|'' @ [CHR 0x5C]"

fun match_here :: "string \<Rightarrow> string \<Rightarrow> bool" where
  "match_here [] s = True"
| "match_here (p # ps) [] = False"
| "match_here (p # ps) (c # cs) =
     ((if p = CHR ''.'' then c \<noteq> CHR 0x0A else to_lower p = to_lower c) \<and> match_here ps cs)"

fun match_anywhere :: "string \<Rightarrow> string \<Rightarrow> bool" where
  "match_anywhere pat [] = match_here pat []"
| "match_anywhere pat (c # cs) = (match_here pat (c # cs) \<or> match_anywhere pat cs)"

definition regex_i :: "(string \<Rightarrow> string \<Rightarrow> bool) \<Rightarrow> string \<Rightarrow> string \<Rightarrow> bool" where
  "regex_i rx pat s =
     (if list_all (\<lambda>c. c \<notin> set regex_special) pat then match_anywhere pat s else rx pat s)"

text \<open>
  The query built from the options: a status given, or pending and failed; a location
  filter and an industry filter when the option is given and not empty.
\<close>

definition query :: "(string \<Rightarrow> string \<Rightarrow> bool) \<Rightarrow> options \<Rightarrow> combination \<Rightarrow> bool" where
  "query rx opts d \<longleftrightarrow>
     (case opt_status opts of
        Some st \<Rightarrow> status d = st
      | None \<Rightarrow> status d = Pending \<or> status d = Failed) \<and>
     (case opt_location opts of
        Some f \<Rightarrow> if f \<noteq> [] then regex_i rx f (location d) else True
      | None \<Rightarrow> True) \<and>
     (case opt_industry opts of
        Some f \<Rightarrow> if f \<noteq> [] then regex_i rx f (industry_name d) else True
      | None \<Rightarrow> True)"

type_synonym projected = "string \<times> string \<times> string \<times> string"

definition project :: "combination \<Rightarrow> projected" where
  "project d = (location d, employee_ranges d, industry_id d, industry_name d)"

definition apply_limit :: "int option \<Rightarrow> 'a list \<Rightarrow> 'a list" where
  "apply_limit limit xs =
     (case limit of
        Some n \<Rightarrow> if n \<noteq> 0 \<and> n > 0 \<and> n < int (length xs) then take (nat n) xs else xs
      | None \<Rightarrow> xs)"

definition filtered_combinations :: "(string \<Rightarrow> string \<Rightarrow> bool) \<Rightarrow> options \<Rightarrow> world \<Rightarrow> projected list" where
  "filtered_combinations rx opts w =
     apply_limit (opt_limit opts) (map project (filter (query rx opts) (combinations w)))"

subsection \<open>The driver\<close>

text \<open>
  The \<open>for\<close> loop over the selected combinations. The search of the item at hand gets the
  replies \<open>rs 0\<close>. When the search raises, the handler sets the status to \<open>failed\<close> and the
  loop goes on; progress lines, the estimate of the remaining time and the pause between
  two items do not act on the store.
\<close>

fun process_combinations ::
  "(string \<Rightarrow> exception option) \<Rightarrow> (nat \<Rightarrow> search_reply list) \<Rightarrow> string \<Rightarrow> string \<Rightarrow>
   projected list \<Rightarrow> world \<Rightarrow> world option" where
  "process_combinations load rs cookies headers [] w = Some w"
| "process_combinations load rs cookies headers (combo # rest) w =
     (case combo of (loc, ranges, iid, industry) \<Rightarrow>
        (case search_apollo_and_save_to_mongodb load (rs 0) loc ranges iid industry cookies headers w of
           None \<Rightarrow> None
         | Some (Inr found, w1) \<Rightarrow>
             process_combinations load (\<lambda>i. rs (Suc i)) cookies headers rest w1
         | Some (Inl e, w1) \<Rightarrow>
             process_combinations load (\<lambda>i. rs (Suc i)) cookies headers rest
               (update_combination_status loc industry Failed None w1)))"

datatype outcome = Cookies_file_not_found | Headers_file_not_found | Nothing_to_do | All_processed

text \<open>
  \<open>Command.handle\<close>: the two file checks, the reset, the generation, the selection and the
  loop. \<open>None\<close> is a run in which a search does not return.
\<close>

definition after_checks :: "env \<Rightarrow> options \<Rightarrow> world \<Rightarrow> (outcome \<times> world) option" where
  "after_checks e opts w =
     (let w1 = (if reset_failed opts then reset_failed_combinations w else w);
          w2 = (if \<not> skip_generation opts
                then snd (generate_combinations (bulk e) (locations e) (industry_tags e) w1)
                else w1);
          selected = filtered_combinations (pcre e) opts w2
      in if length selected = 0 then Some (Nothing_to_do, w2)
         else
           (case process_combinations (load_json_file e) (replies e) (cookies_file opts)
                   (headers_file opts) selected w2 of
              None \<Rightarrow> None
            | Some w3 \<Rightarrow> Some (All_processed, w3)))"

definition handle :: "env \<Rightarrow> options \<Rightarrow> world \<Rightarrow> (outcome \<times> world) option" where
  "handle e opts w =
     (if \<not> path_exists e (cookies_file opts) then Some (Cookies_file_not_found, w)
      else if \<not> path_exists e (headers_file opts) then Some (Headers_file_not_found, w)
      else after_checks e opts w)"

section \<open>The read API (\<open>Organization.get_by_id\<close>, \<open>OrganizationDetailView\<close>)\<close>

text \<open>
  An organization document is its \<open>_id\<close> and the rest of its fields. \<open>ObjectId\<close> is the
  library's parse of an identifier string, which raises on a string that is not an object
  id; \<open>fault\<close> is the exception a call on the collection raises, if any.
\<close>

definition find_one :: "exception option \<Rightarrow> ('d \<Rightarrow> bool) \<Rightarrow> 'd list \<Rightarrow> exception + 'd option" where
  "find_one fault q docs = (case fault of Some e \<Rightarrow> Inl e | None \<Rightarrow> Inr (List.find q docs))"

text \<open>\<open>get_by_id\<close>: the bare \<open>except\<close> turns every exception into \<open>None\<close>.\<close>

definition get_by_id ::
  "(string \<Rightarrow> exception + 'oid) \<Rightarrow> exception option \<Rightarrow> ('oid \<times> 'a) list \<Rightarrow> string \<Rightarrow>
   exception + ('oid \<times> 'a) option" where
  "get_by_id ObjectId fault docs org_id =
     (case (case ObjectId org_id of
              Inl e \<Rightarrow> Inl e
            | Inr oid \<Rightarrow> find_one fault (\<lambda>d. fst d = oid) docs) of
        Inl e \<Rightarrow> Inr None
      | Inr found \<Rightarrow> Inr found)"

text \<open>\<open>get_object\<close>: \<open>except errors.InvalidId\<close> around the call; another exception goes on.\<close>

definition get_object ::
  "(string \<Rightarrow> exception + 'oid) \<Rightarrow> exception option \<Rightarrow> ('oid \<times> 'a) list \<Rightarrow> string \<Rightarrow>
   exception + ('oid \<times> 'a) option" where
  "get_object ObjectId fault docs org_id =
     (case get_by_id ObjectId fault docs org_id of
        Inl e \<Rightarrow> if e = InvalidId then Inr None else Inl e
      | Inr found \<Rightarrow> Inr found)"

datatype 'a body = Error_body string | Organization_body 'a | Validation_errors | No_body

datatype 'a response = Response nat "'a body"

definition not_found :: "'a response" where
  "not_found = Response 404 (Error_body ''Organization not found'')"

text \<open>
  The three methods of the detail view, each with the collection after the request.
  \<open>valid\<close> is the serializer's answer to the request data (\<open>None\<close>: not valid), \<open>set_fields\<close>
  the \<open>$set\<close> of the validated data on a document; \<open>wfault\<close> is the exception of the write.
\<close>

definition detail_get ::
  "(string \<Rightarrow> exception + 'oid) \<Rightarrow> exception option \<Rightarrow> ('oid \<times> 'a) list \<Rightarrow> string \<Rightarrow>
   exception + ('a response \<times> ('oid \<times> 'a) list)" where
  "detail_get ObjectId fault docs org_id =
     (case get_object ObjectId fault docs org_id of
        Inl e \<Rightarrow> Inl e
      | Inr None \<Rightarrow> Inr (not_found, docs)
      | Inr (Some organization) \<Rightarrow> Inr (Response 200 (Organization_body (snd organization)), docs))"

definition detail_put ::
  "(string \<Rightarrow> exception + 'oid) \<Rightarrow> exception option \<Rightarrow> exception option \<Rightarrow> ('a \<Rightarrow> 'a \<Rightarrow> 'a) \<Rightarrow>
   ('oid \<times> 'a) list \<Rightarrow> string \<Rightarrow> 'a option \<Rightarrow> exception + ('a response \<times> ('oid \<times> 'a) list)" where
  "detail_put ObjectId fault wfault set_fields docs org_id valid =
     (case get_object ObjectId fault docs org_id of
        Inl e \<Rightarrow> Inl e
      | Inr None \<Rightarrow> Inr (not_found, docs)
      | Inr (Some organization) \<Rightarrow>
          (case valid of
             None \<Rightarrow> Inr (Response 400 Validation_errors, docs)
           | Some validated_data \<Rightarrow>
               (case ObjectId org_id of
                  Inl e \<Rightarrow> Inl e
                | Inr oid \<Rightarrow>
                    (case wfault of
                       Some e \<Rightarrow> Inl e
                     | None \<Rightarrow>
                         Inr (Response 200 (Organization_body validated_data),
                              update_one (\<lambda>d. fst d = oid)
                                (\<lambda>d. (fst d, set_fields validated_data (snd d))) docs)))))"

text \<open>\<open>delete_one\<close>: the first document that matches is removed.\<close>

fun delete_one :: "('d \<Rightarrow> bool) \<Rightarrow> 'd list \<Rightarrow> 'd list" where
  "delete_one q [] = []"
| "delete_one q (d # ds) = (if q d then ds else d # delete_one q ds)"

definition detail_delete ::
  "(string \<Rightarrow> exception + 'oid) \<Rightarrow> exception option \<Rightarrow> exception option \<Rightarrow> ('oid \<times> 'a) list \<Rightarrow>
   string \<Rightarrow> exception + ('a response \<times> ('oid \<times> 'a) list)" where
  "detail_delete ObjectId fault wfault docs org_id =
     (case get_object ObjectId fault docs org_id of
        Inl e \<Rightarrow> Inl e
      | Inr None \<Rightarrow> Inr (not_found, docs)
      | Inr (Some organization) \<Rightarrow>
          (case ObjectId org_id of
             Inl e \<Rightarrow> Inl e
           | Inr oid \<Rightarrow>
               (case wfault of
                  Some e \<Rightarrow> Inl e
                | None \<Rightarrow> Inr (Response 204 No_body, delete_one (\<lambda>d. fst d = oid) docs))))"

section \<open>Example inputs\<close>

definition stray_doc :: combination where
  "stray_doc = \<lparr>location = ''X'', employee_ranges = ''r'', industry_id = ''y1'',
     industry_name = ''Y'', status = Completed, results_count = Some 3, created_at = 0,
     updated_at = 5\<rparr>"

definition stray_world :: world where
  "stray_world = \<lparr>combinations = [stray_doc], clock = 6, bulk_writes = [], searched = []\<rparr>"

definition failed_world :: world where
  "failed_world = \<lparr>combinations =
     [\<lparr>location = ''NYC'', employee_ranges = ''r'', industry_id = ''t1'',
        industry_name = ''Tech'', status = Failed, results_count = None, created_at = 1,
        updated_at = 4\<rparr>, stray_doc],
     clock = 9, bulk_writes = [], searched = []\<rparr>"

definition no_headers_env :: env where
  "no_headers_env = \<lparr>path_exists = (\<lambda>p. p = ''data/cookies.json''),
     load_json_file = (\<lambda>p. None), locations = [''NYC''], industry_tags = [(''Tech'', ''t1'')],
     bulk = (\<lambda>k. Bulk_ok), replies = (\<lambda>i. []), pcre = (\<lambda>p s. False)\<rparr>"

definition reset_options :: options where
  "reset_options = \<lparr>opt_location = None, opt_industry = None, opt_limit = None,
     cookies_file = ''data/cookies.json'', headers_file = ''data/headers.json'',
     reset_failed = True, opt_status = None, skip_generation = False, batch_size = 5000\<rparr>"

text \<open>
  An identifier resolves when the library parses it, the call on the collection does not
  fail, and a stored organization has the parsed id.
\<close>

definition resolves ::
  "(string \<Rightarrow> exception + 'oid) \<Rightarrow> exception option \<Rightarrow> ('oid \<times> 'a) list \<Rightarrow> string \<Rightarrow> bool" where
  "resolves ObjectId fault docs org_id \<longleftrightarrow>
     (case ObjectId org_id of
        Inl e \<Rightarrow> False
      | Inr oid \<Rightarrow> fault = None \<and> (\<exists>d \<in> set docs. fst d = oid))"

definition parse_id :: "string \<Rightarrow> exception + nat" where
  "parse_id s = (if s = ''64b7f0c2a1d3e4f5a6b7c8d9'' then Inr 1 else if s = ''64b7f0c2a1d3e4f5a6b7c8da'' then Inr 2 else Inl InvalidId)"

definition org_docs :: "(nat \<times> string) list" where
  "org_docs = [(1, ''Acme'')]"

text \<open>The key of a document and of a selected item: location and industry name.\<close>

definition item_key :: "projected \<Rightarrow> string \<times> string" where
  "item_key c = (case c of (loc, ranges, iid, industry) \<Rightarrow> (loc, industry))"

text \<open>One turn of the driver's loop.\<close>

definition process_one ::
  "(string \<Rightarrow> exception option) \<Rightarrow> search_reply list \<Rightarrow> string \<Rightarrow> string \<Rightarrow> projected \<Rightarrow> world \<Rightarrow> world option" where
  "process_one load rs cookies headers combo w = process_combinations load (\<lambda>i. rs) cookies headers [combo] w"

definition key_of :: "combination \<Rightarrow> string \<times> string" where
  "key_of d = (location d, industry_name d)"

text \<open>
  Two pending combinations; the search of the first meets an exception of the details
  request, the search of the second finds seven organizations.
\<close>

definition two_pending :: world where
  "two_pending = \<lparr>combinations =
     [\<lparr>location = ''NYC'', employee_ranges = ''1-10'', industry_id = ''t1'',
        industry_name = ''Tech'', status = Pending, results_count = None, created_at = 0,
        updated_at = 1\<rparr>,
      \<lparr>location = ''LA'', employee_ranges = ''1-10'', industry_id = ''h1'',
        industry_name = ''Health'', status = Pending, results_count = None, created_at = 2,
        updated_at = 3\<rparr>],
     clock = 4, bulk_writes = [], searched = []\<rparr>"

definition two_items :: "projected list" where
  "two_items = [(''NYC'', ''1-10'', ''t1'', ''Tech''), (''LA'', ''1-10'', ''h1'', ''Health'')]"

definition raise_then_seven :: "nat \<Rightarrow> search_reply list" where
  "raise_then_seven i =
     (if i = 0 then
        [Http_response 200 (Json_page [''o1''] False (Details_raises (Other ''ConnectionError'')) None)]
      else
        [Http_response 200
           (Json_page [''a'', ''b'', ''c'', ''d'', ''e'', ''f'', ''g''] False (Details_status 200) None)])"

definition default_options :: options where
  "default_options = \<lparr>opt_location = None, opt_industry = None, opt_limit = None,
     cookies_file = ''data/cookies.json'', headers_file = ''data/headers.json'',
     reset_failed = False, opt_status = None, skip_generation = True, batch_size = 5000\<rparr>"






text \<open>Every search request answered with a body that is not JSON.\<close>

definition unparseable :: "nat \<Rightarrow> search_reply list" where
  "unparseable i = [Http_response 200 Not_json]"

section \<open>Terms for the statements about the generator\<close>

text \<open>
  The operation the loop body of \<open>generate_combinations\<close> appends for an item of the
  product when the clock reads \<open>t\<close>, and the operations appended for a list of items.
\<close>

definition new_op :: "string \<times> string \<times> string \<times> string \<Rightarrow> nat \<Rightarrow> upsert_op" where
  "new_op x t =
     (case x of (loc, ranges, industry, iid) \<Rightarrow>
        ((loc, industry),
         \<lparr>location = loc, employee_ranges = ranges, industry_id = iid, industry_name = industry,
           status = Pending, results_count = None, created_at = t, updated_at = Suc t\<rparr>))"

fun buffered :: "(string \<times> string \<times> string \<times> string) list \<Rightarrow> nat \<Rightarrow> upsert_op list" where
  "buffered [] t = []"
| "buffered (x # xs) t = new_op x t # buffered xs (Suc (Suc t))"

definition empty_store :: world where
  "empty_store = \<lparr>combinations = [], clock = 0, bulk_writes = [], searched = []\<rparr>"

definition three_cities :: "string list" where
  "three_cities = [''NYC'', ''LA'', ''SF'']"

definition one_tag :: "(string \<times> string) list" where
  "one_tag = [(''Tech'', ''t1'')]"

text \<open>\<open>generate_combinations\<close> run \<open>n\<close> times in a row on the same data files.\<close>

fun generate_times ::
  "nat \<Rightarrow> (nat \<Rightarrow> bulk_result) \<Rightarrow> string list \<Rightarrow> (string \<times> string) list \<Rightarrow> world \<Rightarrow> world" where
  "generate_times 0 answer locs tags w = w"
| "generate_times (Suc n) answer locs tags w =
     snd (generate_combinations answer locs tags (generate_times n answer locs tags w))"

(*DEFS_END*)

section \<open>Properties of the generator\<close>

text \<open>
  C7. When the number of documents in the store equals
  \<open>total_potential = |locations| * |employee_ranges| * |industries|\<close>,
  \<open>generate_combinations\<close> writes nothing (the store, the clock and the trace of bulk
  writes are those it was given) and returns the current counts of the statuses with
  \<open>skipped_generation\<close> set; the total it reports is \<open>total_potential\<close>.
\<close>

theorem generation_skipped_when_count_matches:
  assumes "length (combinations w) =
             length locs * length employee_ranges_list * length tags"
  shows "generate_combinations b locs tags w =
     (\<lparr>total_combinations = length locs * length employee_ranges_list * length tags,
       pending_count = count_documents (\<lambda>d. status d = Pending) w,
       completed_count = count_documents (\<lambda>d. status d = Completed) w,
       failed_count = count_documents (\<lambda>d. status d = Failed) w,
       in_progress_count = count_documents (\<lambda>d. status d = In_progress) w,
       new_added = None, skipped_generation = True\<rparr>, w)"
  using assms
  by (simp add: generate_combinations_def generate_with_def count_documents_def status_counts_def)

theorem generation_skipped_witness:
  "length (combinations stray_world) =
     length [''NYC''] * length employee_ranges_list * length [(''Tech'', ''t1'')] \<and>
   generate_combinations (\<lambda>k. Bulk_ok) [''NYC''] [(''Tech'', ''t1'')] stray_world =
     (\<lparr>total_combinations = 1, pending_count = 0, completed_count = 1, failed_count = 0,
       in_progress_count = 0, new_added = None, skipped_generation = True\<rparr>, stray_world)"
  using generation_skipped_when_count_matches
          [of stray_world "[''NYC'']" "[(''Tech'', ''t1'')]" "\<lambda>k. Bulk_ok"]
  by (simp add: stray_world_def stray_doc_def employee_ranges_list_def count_documents_def)

section \<open>Properties of the command\<close>

text \<open>
  C5. The reset keeps the number and the order of the documents; a document whose status
  is \<open>failed\<close> becomes the same document with status \<open>pending\<close> and \<open>updated_at\<close> set to
  the time of the reset (location, industry fields, \<open>results_count\<close> and \<open>created_at\<close> as
  they were), and a document of any other status is not changed at all.
\<close>

theorem reset_failed_frame:
  "length (combinations (reset_failed_combinations w)) = length (combinations w) \<and>
   (\<forall>i < length (combinations w).
      (status (combinations w ! i) = Failed \<longrightarrow>
         combinations (reset_failed_combinations w) ! i =
           (combinations w ! i)\<lparr>status := Pending, updated_at := clock w\<rparr>) \<and>
      (status (combinations w ! i) \<noteq> Failed \<longrightarrow>
         combinations (reset_failed_combinations w) ! i = combinations w ! i))"
  by (simp add: reset_failed_combinations_def timezone_now_def)

theorem reset_failed_frame_witness:
  "map status (combinations (reset_failed_combinations failed_world)) = [Pending, Completed] \<and>
   combinations (reset_failed_combinations failed_world) ! 1 = stray_doc \<and>
   combinations (reset_failed_combinations failed_world) ! 0 =
     (combinations failed_world ! 0)\<lparr>status := Pending, updated_at := 9\<rparr>"
proof -
  have len: "length (combinations failed_world) = 2" and c: "clock failed_world = 9"
    and s0: "status (combinations failed_world ! 0) = Failed"
    and s1: "status (combinations failed_world ! 1) \<noteq> Failed"
    and d1: "combinations failed_world ! 1 = stray_doc"
    by (simp_all add: failed_world_def stray_doc_def)
  have a: "combinations (reset_failed_combinations failed_world) ! 0 =
      (combinations failed_world ! 0)\<lparr>status := Pending, updated_at := 9\<rparr>"
    using reset_failed_frame[of failed_world] len s0 c by simp
  have b: "combinations (reset_failed_combinations failed_world) ! 1 = stray_doc"
    using reset_failed_frame[of failed_world] len s1 d1 by simp
  have "map status (combinations (reset_failed_combinations failed_world)) = [Pending, Completed]"
    by (simp add: reset_failed_combinations_def timezone_now_def failed_world_def stray_doc_def)
  with a b show ?thesis by simp
qed

text \<open>
  C9. When the cookies file or the headers file does not exist, the command ends with the
  error report and the world it was given: no reset, no generation, no search, no change
  of any document. When both exist, the checks themselves change nothing: the rest of the
  command starts from the world as given.
\<close>

theorem missing_file_aborts:
  "(\<not> path_exists e (cookies_file opts) \<longrightarrow>
      handle e opts w = Some (Cookies_file_not_found, w)) \<and>
   (path_exists e (cookies_file opts) \<and> \<not> path_exists e (headers_file opts) \<longrightarrow>
      handle e opts w = Some (Headers_file_not_found, w)) \<and>
   (path_exists e (cookies_file opts) \<and> path_exists e (headers_file opts) \<longrightarrow>
      handle e opts w = after_checks e opts w)"
  by (simp add: handle_def)

theorem missing_file_aborts_witness:
  "handle no_headers_env reset_options failed_world = Some (Headers_file_not_found, failed_world)"
proof -
  have "path_exists no_headers_env (cookies_file reset_options) \<and>
        \<not> path_exists no_headers_env (headers_file reset_options)"
    by (simp add: no_headers_env_def reset_options_def)
  with missing_file_aborts[of no_headers_env reset_options failed_world] show ?thesis by blast
qed

section \<open>Properties of the read API\<close>

lemma find_none_iff_no_match: "List.find P xs = None \<longleftrightarrow> \<not> (\<exists>x\<in>set xs. P x)"
  by (induction xs) auto

text \<open>
  C10. For every identifier string, valid as an object id or not, the lookup by id returns
  and does not raise; and whenever the identifier does not resolve (it is not an object
  id, no organization has it, or the call on the collection fails), the detail, update
  and delete endpoints each answer with the not-found response (status 404 and the error
  message) and leave the collection as it was.
\<close>

theorem lookup_not_found:
  "(\<exists>found. get_by_id ObjectId fault docs org_id = Inr found) \<and>
   (\<exists>found. get_object ObjectId fault docs org_id = Inr found) \<and>
   (\<not> resolves ObjectId fault docs org_id \<longrightarrow>
      get_object ObjectId fault docs org_id = Inr None \<and>
      detail_get ObjectId fault docs org_id = Inr (not_found, docs) \<and>
      detail_put ObjectId fault wfault set_fields docs org_id valid = Inr (not_found, docs) \<and>
      detail_delete ObjectId fault wfault docs org_id = Inr (not_found, docs))"
proof -
  have a: "\<exists>found. get_by_id ObjectId fault docs org_id = Inr found"
    by (simp add: get_by_id_def split: sum.splits)
  then have b: "\<exists>found. get_object ObjectId fault docs org_id = Inr found"
    by (auto simp: get_object_def)
  have c: "get_object ObjectId fault docs org_id = Inr None"
    if "\<not> resolves ObjectId fault docs org_id"
    using that
    by (auto simp: get_object_def get_by_id_def resolves_def find_one_def find_none_iff_no_match
        split: sum.splits option.splits)
  show ?thesis using a b c
    by (simp add: detail_get_def detail_put_def detail_delete_def)
qed

theorem lookup_not_found_witness:
  "detail_get parse_id None org_docs ''not-an-object-id'' = Inr (not_found, org_docs) \<and>
   detail_put parse_id None None (\<lambda>new old. new) org_docs ''not-an-object-id'' (Some ''Apex'') =
     Inr (not_found, org_docs) \<and>
   detail_delete parse_id None None org_docs ''64b7f0c2a1d3e4f5a6b7c8da'' = Inr (not_found, org_docs) \<and>
   detail_get parse_id (Some (Other ''ServerSelectionTimeoutError'')) org_docs ''64b7f0c2a1d3e4f5a6b7c8d9'' =
     Inr (not_found, org_docs)"
proof -
  have 1: "\<not> resolves parse_id None org_docs ''not-an-object-id''"
    and 2: "\<not> resolves parse_id None org_docs ''64b7f0c2a1d3e4f5a6b7c8da''"
    and 3: "\<not> resolves parse_id (Some (Other ''ServerSelectionTimeoutError'')) org_docs ''64b7f0c2a1d3e4f5a6b7c8d9''"
    by (simp_all add: resolves_def parse_id_def org_docs_def)
  show ?thesis
    using lookup_not_found[of parse_id None org_docs "''not-an-object-id''" None "\<lambda>new old. new" "Some ''Apex''"] 1
      lookup_not_found[of parse_id None org_docs "''64b7f0c2a1d3e4f5a6b7c8da''" None "\<lambda>new old. new" "Some ''Apex''"] 2
      lookup_not_found[of parse_id "Some (Other ''ServerSelectionTimeoutError'')" org_docs "''64b7f0c2a1d3e4f5a6b7c8d9''" None "\<lambda>new old. new" "Some ''Apex''"] 3
    by blast
qed

section \<open>Properties of the harvest\<close>

lemma find_update_one_same:
  assumes "List.find q docs = Some d" and "\<And>x. q x \<Longrightarrow> q (f x)"
  shows "List.find q (update_one q f docs) = Some (f d)"
  using assms by (induction docs) (auto split: if_splits)

lemma find_update_one_other:
  assumes "\<And>x. q x \<Longrightarrow> \<not> q' x" and "\<And>x. q' (f x) = q' x"
  shows "List.find q' (update_one q f docs) = List.find q' docs"
  using assms by (induction docs) auto

lemma matches_update_fields [simp]:
  "matches k (d\<lparr>status := st, updated_at := t, results_count := rc\<rparr>) = matches k d"
  by (simp add: matches_def)

lemma combinations_update_status:
  "combinations (update_combination_status loc industry st rc w) =
     update_one (matches (loc, industry))
       (\<lambda>d. d\<lparr>status := st, updated_at := clock w,
               results_count := (case rc of None \<Rightarrow> results_count d | Some c \<Rightarrow> Some c)\<rparr>)
       (combinations w)"
  by (simp add: update_combination_status_def timezone_now_def)

lemma find_after_update_status:
  assumes "List.find (matches (loc, industry)) (combinations w) = Some d"
  shows "List.find (matches (loc, industry)) (combinations (update_combination_status loc industry st rc w)) =
     Some (d\<lparr>status := st, updated_at := clock w,
              results_count := (case rc of None \<Rightarrow> results_count d | Some c \<Rightarrow> Some c)\<rparr>)"
  unfolding combinations_update_status
  by (rule find_update_one_same[OF assms]) simp

lemma process_page_total: "process_page body s = (s', x) \<Longrightarrow> total_results_found s \<le> total_results_found s'"
  by (auto simp: process_page_def Let_def split: page_body.splits prod.splits if_splits sum.splits batch_details.splits)

lemma after_post_total: "after_post code body s = Inr s' \<Longrightarrow> total_results_found s \<le> total_results_found s'"
  by (auto simp: after_post_def split: prod.splits option.splits if_splits dest: process_page_total)

lemma paginate_total: "paginate rs s = Some (Inr c) \<Longrightarrow> total_results_found s \<le> c"
proof (induction rs s rule: paginate.induct)
  case (3 code body replies s)
  then show ?case
    by (auto split: sum.splits if_splits dest: after_post_total)
qed simp_all

lemma try_search_nonneg: "try_search load rs cookies headers = Some (Inr c) \<Longrightarrow> 0 \<le> c"
  by (auto simp: try_search_def split: option.splits dest: paginate_total)

lemma search_effect:
  assumes run: "search_apollo_and_save_to_mongodb load rs loc ranges iid industry cookies headers w = Some (r, w')"
    and doc: "List.find (matches (loc, industry)) (combinations w) = Some d"
  shows "\<exists>d'. List.find (matches (loc, industry)) (combinations w') = Some d' \<and>
      location d' = location d \<and> industry_name d' = industry_name d \<and>
      (case r of
         Inr c \<Rightarrow> try_search load rs cookies headers = Some (Inr c) \<and>
                  status d' = Completed \<and> results_count d' = Some c \<and> 0 \<le> c
       | Inl e \<Rightarrow> try_search load rs cookies headers = Some (Inl e) \<and>
                  status d' = Failed \<and> results_count d' = results_count d)"
proof -
  let ?w0 = "w\<lparr>searched := searched w @ [(loc, industry)]\<rparr>"
  let ?w1 = "update_combination_status loc industry In_progress None ?w0"
  have "List.find (matches (loc, industry)) (combinations ?w0) = Some d" using doc by simp
  from find_after_update_status[OF this]
  have f1: "List.find (matches (loc, industry)) (combinations ?w1) =
      Some (d\<lparr>status := In_progress, updated_at := clock ?w0, results_count := results_count d\<rparr>)"
    by simp
  show ?thesis
  proof (cases r)
    case (Inr c)
    with run have t: "try_search load rs cookies headers = Some (Inr c)"
      and w': "w' = update_combination_status loc industry Completed (Some c) ?w1"
      by (auto simp: search_apollo_and_save_to_mongodb_def Let_def split: option.splits sum.splits)
    from find_after_update_status[OF f1, of Completed "Some c"] w' t Inr try_search_nonneg[OF t]
    show ?thesis by simp
  next
    case (Inl e)
    with run have t: "try_search load rs cookies headers = Some (Inl e)"
      and w': "w' = update_combination_status loc industry Failed None ?w1"
      by (auto simp: search_apollo_and_save_to_mongodb_def Let_def split: option.splits sum.splits)
    from find_after_update_status[OF f1, of Failed None] w' t Inl
    show ?thesis by simp
  qed
qed

lemma matches_key_unique: "matches k x \<Longrightarrow> k' \<noteq> k \<Longrightarrow> \<not> matches k' x"
  by (auto simp: matches_def prod_eq_iff)

lemma find_update_status_other:
  assumes "k \<noteq> (loc, industry)"
  shows "List.find (matches k) (combinations (update_combination_status loc industry st rc w)) =
         List.find (matches k) (combinations w)"
  unfolding combinations_update_status
  by (rule find_update_one_other) (use assms in \<open>auto dest: matches_key_unique\<close>)

lemma searched_update_status [simp]:
  "searched (update_combination_status loc industry st rc w) = searched w"
  by (simp add: update_combination_status_def timezone_now_def)

lemma search_frame:
  assumes "search_apollo_and_save_to_mongodb load rs loc ranges iid industry cookies headers w = Some (r, w')"
  shows "searched w' = searched w @ [(loc, industry)]"
    and "k \<noteq> (loc, industry) \<Longrightarrow>
         List.find (matches k) (combinations w') = List.find (matches k) (combinations w)"
  using assms
  by (auto simp: search_apollo_and_save_to_mongodb_def Let_def find_update_status_other
      split: option.splits sum.splits)

lemma process_Cons:
  "process_combinations load rs cookies headers (combo # rest) w =
     (case process_one load (rs 0) cookies headers combo w of
        None \<Rightarrow> None
      | Some w1 \<Rightarrow> process_combinations load (\<lambda>i. rs (Suc i)) cookies headers rest w1)"
  by (cases combo) (simp add: process_one_def split: option.splits sum.splits prod.splits)

lemma process_ConsE:
  assumes "process_combinations load rs cookies headers (combo # rest) w = Some w'"
  obtains w1 where "process_one load (rs 0) cookies headers combo w = Some w1"
    and "process_combinations load (\<lambda>i. rs (Suc i)) cookies headers rest w1 = Some w'"
  using assms unfolding process_Cons by (auto split: option.splits)

lemma process_one_effect:
  assumes run: "process_one load rs cookies headers combo w = Some w'"
  shows "searched w' = searched w @ [item_key combo]"
    and "k \<noteq> item_key combo \<Longrightarrow>
         List.find (matches k) (combinations w') = List.find (matches k) (combinations w)"
    and "List.find (matches (item_key combo)) (combinations w) = Some d \<Longrightarrow>
         \<exists>d'. List.find (matches (item_key combo)) (combinations w') = Some d' \<and>
           (case try_search load rs cookies headers of
              Some (Inr c) \<Rightarrow> status d' = Completed \<and> results_count d' = Some c \<and> 0 \<le> c
            | Some (Inl e) \<Rightarrow> status d' = Failed \<and> results_count d' = results_count d
            | None \<Rightarrow> False)"
proof -
  obtain loc ranges iid industry where combo: "combo = (loc, ranges, iid, industry)"
    by (cases combo) auto
  from run obtain r w1 where
    s: "search_apollo_and_save_to_mongodb load rs loc ranges iid industry cookies headers w = Some (r, w1)"
    and w': "w' = (case r of Inr c \<Rightarrow> w1 | Inl e \<Rightarrow> update_combination_status loc industry Failed None w1)"
    by (auto simp: process_one_def combo split: option.splits sum.splits)
  show "searched w' = searched w @ [item_key combo]"
    using search_frame(1)[OF s] w' by (simp add: item_key_def combo split: sum.splits)
  show "List.find (matches k) (combinations w') = List.find (matches k) (combinations w)"
    if "k \<noteq> item_key combo"
    using search_frame(2)[OF s, of k] w' that
    by (simp add: item_key_def combo find_update_status_other split: sum.splits)
  show "\<exists>d'. List.find (matches (item_key combo)) (combinations w') = Some d' \<and>
           (case try_search load rs cookies headers of
              Some (Inr c) \<Rightarrow> status d' = Completed \<and> results_count d' = Some c \<and> 0 \<le> c
            | Some (Inl e) \<Rightarrow> status d' = Failed \<and> results_count d' = results_count d
            | None \<Rightarrow> False)"
    if d: "List.find (matches (item_key combo)) (combinations w) = Some d"
  proof -
    from d have d0: "List.find (matches (loc, industry)) (combinations w) = Some d"
      by (simp add: item_key_def combo)
    from search_effect[OF s d0] obtain d1 where
      f1: "List.find (matches (loc, industry)) (combinations w1) = Some d1"
      and c: "(case r of
         Inr c \<Rightarrow> try_search load rs cookies headers = Some (Inr c) \<and>
                  status d1 = Completed \<and> results_count d1 = Some c \<and> 0 \<le> c
       | Inl e \<Rightarrow> try_search load rs cookies headers = Some (Inl e) \<and>
                  status d1 = Failed \<and> results_count d1 = results_count d)"
      by blast
    show ?thesis
    proof (cases r)
      case (Inr c)
      with f1 c w' show ?thesis by (simp add: item_key_def combo)
    next
      case (Inl e)
      with find_after_update_status[OF f1, of Failed None] c w'
      show ?thesis by (simp add: item_key_def combo)
    qed
  qed
qed

lemma process_frame:
  assumes "process_combinations load rs cookies headers items w = Some w'"
    and "k \<notin> set (map item_key items)"
  shows "List.find (matches k) (combinations w') = List.find (matches k) (combinations w)"
  using assms
proof (induction items arbitrary: rs w)
  case Nil
  then show ?case by simp
next
  case (Cons combo rest)
  from Cons.prems(1) obtain w1 where
    one: "process_one load (rs 0) cookies headers combo w = Some w1"
    and more: "process_combinations load (\<lambda>i. rs (Suc i)) cookies headers rest w1 = Some w'"
    by (rule process_ConsE)
  from Cons.prems(2) have "k \<noteq> item_key combo" and "k \<notin> set (map item_key rest)" by auto
  with Cons.IH[OF more] process_one_effect(2)[OF one, of k] show ?case by simp
qed

lemma process_searched:
  assumes "process_combinations load rs cookies headers items w = Some w'"
  shows "searched w' = searched w @ map item_key items"
  using assms
proof (induction items arbitrary: rs w)
  case Nil
  then show ?case by simp
next
  case (Cons combo rest)
  from Cons.prems(1) obtain w1 where
    one: "process_one load (rs 0) cookies headers combo w = Some w1"
    and more: "process_combinations load (\<lambda>i. rs (Suc i)) cookies headers rest w1 = Some w'"
    by (rule process_ConsE)
  with Cons.IH[OF more] process_one_effect(1)[OF one] show ?case by simp
qed

lemma process_outcome:
  assumes "process_combinations load rs cookies headers items w = Some w'"
    and "distinct (map item_key items)" and "i < length items"
    and "List.find (matches (item_key (items ! i))) (combinations w) = Some d"
  shows "\<exists>d'. List.find (matches (item_key (items ! i))) (combinations w') = Some d' \<and>
           (case try_search load (rs i) cookies headers of
              Some (Inr c) \<Rightarrow> status d' = Completed \<and> results_count d' = Some c \<and> 0 \<le> c
            | Some (Inl e) \<Rightarrow> status d' = Failed \<and> results_count d' = results_count d
            | None \<Rightarrow> False)"
  using assms
proof (induction items arbitrary: rs w i)
  case Nil
  then show ?case by simp
next
  case (Cons combo rest)
  from Cons.prems(1) obtain w1 where
    one: "process_one load (rs 0) cookies headers combo w = Some w1"
    and more: "process_combinations load (\<lambda>i. rs (Suc i)) cookies headers rest w1 = Some w'"
    by (rule process_ConsE)
  show ?case
  proof (cases i)
    case 0
    from Cons.prems(2) have "item_key combo \<notin> set (map item_key rest)" by simp
    from process_frame[OF more this] process_one_effect(3)[OF one, of d] Cons.prems(4) 0
    show ?thesis by simp
  next
    case (Suc j)
    with Cons.prems(2,3,4) have j: "j < length rest" and dj: "distinct (map item_key rest)"
      and notin: "item_key combo \<notin> set (map item_key rest)"
      and fd: "List.find (matches (item_key (rest ! j))) (combinations w) = Some d"
      by simp_all
    from j have "item_key (rest ! j) \<in> set (map item_key rest)" by simp
    with notin have ne: "item_key (rest ! j) \<noteq> item_key combo" by metis
    from process_one_effect(2)[OF one ne] fd
    have "List.find (matches (item_key (rest ! j))) (combinations w1) = Some d" by simp
    from Cons.IH[OF more dj j this] Suc show ?thesis by simp
  qed
qed

lemma process_one_returns:
  assumes "try_search load rs cookies headers \<noteq> None"
  shows "\<exists>w1. process_one load rs cookies headers combo w = Some w1"
proof -
  obtain loc ranges iid industry where combo: "combo = (loc, ranges, iid, industry)"
    by (cases combo) auto
  from assms obtain y where y: "try_search load rs cookies headers = Some y" by auto
  show ?thesis
    by (cases y)
      (simp_all add: process_one_def search_apollo_and_save_to_mongodb_def Let_def combo y)
qed

lemma process_returns:
  assumes "\<forall>i<length items. try_search load (rs i) cookies headers \<noteq> None"
  shows "\<exists>w'. process_combinations load rs cookies headers items w = Some w'"
  using assms
proof (induction items arbitrary: rs w)
  case Nil
  then show ?case by simp
next
  case (Cons combo rest)
  from Cons.prems have "try_search load (rs 0) cookies headers \<noteq> None" by auto
  from process_one_returns[OF this]
  obtain w1 where one: "process_one load (rs 0) cookies headers combo w = Some w1" by blast
  from Cons.prems have "\<forall>i<length rest. try_search load (rs (Suc i)) cookies headers \<noteq> None" by auto
  from Cons.IH[of "\<lambda>i. rs (Suc i)", OF this] one show ?case
    unfolding process_Cons by simp
qed

lemma item_key_project [simp]: "item_key (project d) = key_of d"
  by (simp add: item_key_def project_def key_of_def)

lemma matches_key_of: "matches k d \<longleftrightarrow> key_of d = k"
  by (auto simp: matches_def key_of_def prod_eq_iff)

lemma apply_limit_take: "\<exists>n. apply_limit limit xs = take n xs"
proof (cases "apply_limit limit xs = xs")
  case True
  then have "apply_limit limit xs = take (length xs) xs" by simp
  then show ?thesis ..
next
  case False
  then show ?thesis by (auto simp: apply_limit_def split: option.splits if_splits)
qed

lemma filtered_take:
  "\<exists>n. filtered_combinations rx opts w = map project (take n (filter (query rx opts) (combinations w)))"
  using apply_limit_take[of "opt_limit opts" "map project (filter (query rx opts) (combinations w))"]
  by (auto simp: filtered_combinations_def take_map)

lemma filtered_distinct:
  assumes "distinct (map key_of (combinations w))"
  shows "distinct (map item_key (filtered_combinations rx opts w))"
proof -
  obtain n where n: "filtered_combinations rx opts w =
      map project (take n (filter (query rx opts) (combinations w)))"
    using filtered_take by blast
  have "distinct (map key_of (filter (query rx opts) (combinations w)))"
    using assms by (rule distinct_map_filter)
  then have "distinct (take n (map key_of (filter (query rx opts) (combinations w))))"
    by (rule distinct_take)
  then show ?thesis by (simp add: n take_map comp_def)
qed

lemma filtered_source:
  assumes "i < length (filtered_combinations rx opts w)"
  shows "\<exists>d \<in> set (combinations w). query rx opts d \<and> project d = filtered_combinations rx opts w ! i"
proof -
  obtain n where n: "filtered_combinations rx opts w =
      map project (take n (filter (query rx opts) (combinations w)))"
    using filtered_take by blast
  let ?sel = "take n (filter (query rx opts) (combinations w))"
  from assms have i: "i < length ?sel" by (simp add: n)
  then have "?sel ! i \<in> set ?sel" by (rule nth_mem)
  then have "?sel ! i \<in> set (filter (query rx opts) (combinations w))" by (rule in_set_takeD)
  moreover have "project (?sel ! i) = filtered_combinations rx opts w ! i"
    using i by (simp add: n)
  ultimately show ?thesis by auto
qed

lemma find_unique:
  assumes "distinct (map key_of docs)" and "d \<in> set docs"
  shows "List.find (matches (key_of d)) docs = Some d"
  using assms by (induction docs) (auto simp: matches_key_of rev_image_eqI)

text \<open>
  C3. With the unique index on (location, industry name) in place, after the driver's loop
  over the selected combinations every one of them has a stored document whose state
  follows the outcome of its search: when the search returned a count, the status is
  \<open>completed\<close> and \<open>results_count\<close> is that count, which is not negative; when it
  raised, the status is \<open>failed\<close> and \<open>results_count\<close> is what it was before the run.
\<close>

theorem harvest_postcondition:
  assumes uniq: "distinct (map key_of (combinations w))"
    and run: "process_combinations load rs cookies headers (filtered_combinations rx opts w) w = Some w'"
    and i: "i < length (filtered_combinations rx opts w)"
  shows "\<exists>d d'. d \<in> set (combinations w) \<and> project d = filtered_combinations rx opts w ! i \<and>
      List.find (matches (key_of d)) (combinations w') = Some d' \<and>
      (case try_search load (rs i) cookies headers of
         Some (Inr c) \<Rightarrow> status d' = Completed \<and> results_count d' = Some c \<and> 0 \<le> c
       | Some (Inl e) \<Rightarrow> status d' = Failed \<and> results_count d' = results_count d
       | None \<Rightarrow> False)"
proof -
  from filtered_source[OF i] obtain d where d: "d \<in> set (combinations w)"
    and p: "project d = filtered_combinations rx opts w ! i" by blast
  have k: "item_key (filtered_combinations rx opts w ! i) = key_of d"
    using p[symmetric] by simp
  have "List.find (matches (item_key (filtered_combinations rx opts w ! i))) (combinations w) = Some d"
    unfolding k using find_unique[OF uniq d] .
  from process_outcome[OF run filtered_distinct[OF uniq] i this] d p k show ?thesis
    by auto
qed

text \<open>
  Exceptions that leave the search function. When every search of the queue ends, by a
  count or by an exception, the loop ends too and has started a search for each item of
  the queue in order, whatever failed on the way; an item whose search raised is marked
  \<open>failed\<close>. An exception of the search request reaches the handlers as it is, one of
  the details request as the \<open>NameError\<close> of its handler.
\<close>

lemma raising_search_isolated:
  assumes "\<forall>i<length items. try_search load (rs i) cookies headers \<noteq> None"
  shows "(\<exists>w'. process_combinations load rs cookies headers items w = Some w' \<and>
       searched w' = searched w @ map item_key items \<and>
       (distinct (map item_key items) \<longrightarrow>
          (\<forall>i<length items. \<forall>e d.
             try_search load (rs i) cookies headers = Some (Inl e) \<longrightarrow>
             List.find (matches (item_key (items ! i))) (combinations w) = Some d \<longrightarrow>
             (\<exists>d'. List.find (matches (item_key (items ! i))) (combinations w') = Some d' \<and>
                   status d' = Failed)))) \<and>
     (load cookies = None \<and> load headers = None \<longrightarrow>
        try_search load (Post_raises x # later) cookies headers = Some (Inl x) \<and>
        (fst (collect_ids orgs []) \<noteq> [] \<longrightarrow>
           try_search load
             (Http_response code (Json_page orgs no_next (Details_raises x) save) # later)
             cookies headers = Some (Inl NameError)))"
proof -
  from process_returns[OF assms] obtain w' where
    run: "process_combinations load rs cookies headers items w = Some w'" by blast
  have marked: "\<exists>d'. List.find (matches (item_key (items ! i))) (combinations w') = Some d' \<and>
                   status d' = Failed"
    if "distinct (map item_key items)" "i < length items"
      "try_search load (rs i) cookies headers = Some (Inl e)"
      "List.find (matches (item_key (items ! i))) (combinations w) = Some d" for i e d
    using process_outcome[OF run that(1,2,4)] that(3) by auto
  have raises: "try_search load (Post_raises x # later) cookies headers = Some (Inl x)"
    if "load cookies = None" "load headers = None"
    using that by (simp add: try_search_def)
  have details: "try_search load
             (Http_response code (Json_page orgs no_next (Details_raises x) save) # later)
             cookies headers = Some (Inl NameError)"
    if "load cookies = None" "load headers = None" "fst (collect_ids orgs []) \<noteq> []"
  proof -
    obtain cur seen where c: "collect_ids orgs [] = (cur, seen)" by (cases "collect_ids orgs []")
    with that(3) have "cur \<noteq> []" by simp
    with c that(1,2) show ?thesis
      by (simp add: try_search_def after_post_def process_page_def
          fetch_organization_details_def Let_def)
  qed
  from run process_searched[OF run] marked raises details show ?thesis by blast
qed

lemma first_search_raises: "try_search (\<lambda>p. None) (raise_then_seven 0) ''c'' ''h'' = Some (Inl NameError)"
  by (simp add: try_search_def raise_then_seven_def after_post_def process_page_def fetch_organization_details_def)

lemma second_search_finds_seven: "try_search (\<lambda>p. None) (raise_then_seven (Suc 0)) ''c'' ''h'' = Some (Inr 7)"
  by (simp add: try_search_def raise_then_seven_def after_post_def process_page_def fetch_organization_details_def)

lemma two_items_run: "map_option (\<lambda>w. (map status (combinations w), map results_count (combinations w), searched w))
   (process_combinations (\<lambda>p. None) raise_then_seven ''c'' ''h'' two_items two_pending) =
   Some ([Failed, Completed], [None, Some 7], [(''NYC'', ''Tech''), (''LA'', ''Health'')])"
  by (simp add: two_items_def two_pending_def search_apollo_and_save_to_mongodb_def first_search_raises second_search_finds_seven
       update_combination_status_def timezone_now_def matches_def)

lemma two_selected:
  "filtered_combinations (\<lambda>p s. False) default_options two_pending = two_items"
  by (simp add: filtered_combinations_def default_options_def two_pending_def two_items_def
      query_def project_def apply_limit_def)

lemma two_run:
  "\<exists>w'. process_combinations (\<lambda>p. None) raise_then_seven ''c'' ''h'' two_items two_pending = Some w' \<and>
     map status (combinations w') = [Failed, Completed] \<and>
     map results_count (combinations w') = [None, Some 7] \<and>
     searched w' = [(''NYC'', ''Tech''), (''LA'', ''Health'')]"
  using two_items_run by auto

theorem harvest_postcondition_witness:
  "\<exists>w' d d'.
     process_combinations (\<lambda>p. None) raise_then_seven ''c'' ''h''
       (filtered_combinations (\<lambda>p s. False) default_options two_pending) two_pending = Some w' \<and>
     d \<in> set (combinations two_pending) \<and>
     project d = (''LA'', ''1-10'', ''h1'', ''Health'') \<and>
     List.find (matches (key_of d)) (combinations w') = Some d' \<and>
     status d' = Completed \<and> results_count d' = Some 7"
proof -
  let ?sel = "filtered_combinations (\<lambda>p s. False) default_options two_pending"
  have uniq: "distinct (map key_of (combinations two_pending))"
    by (simp add: two_pending_def key_of_def)
  from two_run obtain w' where
    run: "process_combinations (\<lambda>p. None) raise_then_seven ''c'' ''h'' ?sel two_pending = Some w'"
    unfolding two_selected by blast
  have i: "Suc 0 < length ?sel" and item: "?sel ! Suc 0 = (''LA'', ''1-10'', ''h1'', ''Health'')"
    unfolding two_selected by (simp_all add: two_items_def)
  from harvest_postcondition[OF uniq run i] obtain d d' where
    "d \<in> set (combinations two_pending)" "project d = ?sel ! Suc 0"
    "List.find (matches (key_of d)) (combinations w') = Some d'"
    "status d' = Completed \<and> results_count d' = Some 7"
    unfolding second_search_finds_seven by auto
  with run item show ?thesis by metis
qed

lemma raising_search_isolated_example:
  "\<exists>w' d'.
     process_combinations (\<lambda>p. None) raise_then_seven ''c'' ''h'' two_items two_pending = Some w' \<and>
     searched w' = searched two_pending @ map item_key two_items \<and>
     List.find (matches (''NYC'', ''Tech'')) (combinations w') = Some d' \<and> status d' = Failed"
proof -
  have ends: "\<forall>i<length two_items. try_search (\<lambda>p. None) (raise_then_seven i) ''c'' ''h'' \<noteq> None"
  proof (intro allI impI)
    fix i assume "i < length two_items"
    then have "i = 0 \<or> i = Suc 0" by (auto simp: two_items_def)
    then show "try_search (\<lambda>p. None) (raise_then_seven i) ''c'' ''h'' \<noteq> None"
      using first_search_raises second_search_finds_seven by auto
  qed
  have dist: "distinct (map item_key two_items)" and len: "0 < length two_items"
    and k: "item_key (two_items ! 0) = (''NYC'', ''Tech'')"
    by (simp_all add: two_items_def item_key_def)
  have doc: "List.find (matches (''NYC'', ''Tech'')) (combinations two_pending) =
      Some (combinations two_pending ! 0)"
    by (simp add: two_pending_def matches_def)
  from raising_search_isolated[OF ends, of two_pending] obtain w' where
    run: "process_combinations (\<lambda>p. None) raise_then_seven ''c'' ''h'' two_items two_pending = Some w'"
    and tr: "searched w' = searched two_pending @ map item_key two_items"
    and mk: "distinct (map item_key two_items) \<longrightarrow>
          (\<forall>i<length two_items. \<forall>e d.
             try_search (\<lambda>p. None) (raise_then_seven i) ''c'' ''h'' = Some (Inl e) \<longrightarrow>
             List.find (matches (item_key (two_items ! i))) (combinations two_pending) = Some d \<longrightarrow>
             (\<exists>d'. List.find (matches (item_key (two_items ! i))) (combinations w') = Some d' \<and>
                   status d' = Failed))"
    by blast
  from mk dist len first_search_raises doc k obtain d' where
    "List.find (matches (''NYC'', ''Tech'')) (combinations w') = Some d'" "status d' = Failed"
    by metis
  with run tr show ?thesis by blast
qed

section \<open>Properties of the selector\<close>










section \<open>A reply that does not parse\<close>

lemma unparseable_search:
  assumes "load cookies = None" and "load headers = None"
  shows "try_search load (Http_response code Not_json # later) cookies headers = Some (Inr 0)"
  using assms by (simp add: try_search_def after_post_def process_page_def)

text \<open>
  C4. An error raised while an item is processed does not always mark it \<open>failed\<close>: when
  the body of the search reply is not JSON, the \<open>JSONDecodeError\<close> of its parse is caught
  inside the page loop, which only stops asking for pages; the search returns the count
  so far and the item is stored as \<open>completed\<close>, with \<open>results_count\<close> 0 when the
  first reply is the one that does not parse. The run goes on to its end.
\<close>

theorem unparseable_payload_completed:
  assumes "load cookies = None" and "load headers = None"
    and "distinct (map item_key items)"
    and "i < length items"
    and "rs i = Http_response code Not_json # later"
    and "\<forall>j<length items. try_search load (rs j) cookies headers \<noteq> None"
    and "List.find (matches (item_key (items ! i))) (combinations w) = Some d"
  shows "\<exists>w' d'. process_combinations load rs cookies headers items w = Some w' \<and>
      List.find (matches (item_key (items ! i))) (combinations w') = Some d' \<and>
      status d' = Completed \<and> results_count d' = Some 0"
proof -
  from process_returns[OF assms(6)] obtain w' where
    run: "process_combinations load rs cookies headers items w = Some w'" by blast
  have "try_search load (rs i) cookies headers = Some (Inr 0)"
    unfolding assms(5) using assms(1,2) by (rule unparseable_search)
  with process_outcome[OF run assms(3,4,7)] run show ?thesis by auto
qed

theorem unparseable_payload_completed_witness:
  "\<exists>w' d'. process_combinations (\<lambda>p. None) unparseable ''c'' ''h'' two_items two_pending = Some w' \<and>
      List.find (matches (''NYC'', ''Tech'')) (combinations w') = Some d' \<and>
      status d' = Completed \<and> results_count d' = Some 0"
proof -
  have dist: "distinct (map item_key two_items)" and len: "0 < length two_items"
    and k: "item_key (two_items ! 0) = (''NYC'', ''Tech'')"
    by (simp_all add: two_items_def item_key_def)
  have ends: "\<forall>j<length two_items. try_search (\<lambda>p. None) (unparseable j) ''c'' ''h'' \<noteq> None"
    by (simp add: unparseable_def unparseable_search)
  have doc: "List.find (matches (item_key (two_items ! 0))) (combinations two_pending) =
      Some (combinations two_pending ! 0)"
    unfolding k by (simp add: two_pending_def matches_def)
  have r: "unparseable 0 = Http_response 200 Not_json # []" by (simp add: unparseable_def)
  from unparseable_payload_completed[OF refl refl dist len r ends doc]
  show ?thesis unfolding k .
qed

section \<open>Properties of the batches\<close>

lemma buffer_combination_eq:
  "buffer_combination x g w =
     (g\<lparr>current_batch := current_batch g @ [new_op x (clock w)],
        processed_count := Suc (processed_count g)\<rparr>,
      w\<lparr>clock := Suc (Suc (clock w))\<rparr>)"
  by (cases x) (simp add: buffer_combination_def timezone_now_def new_op_def)

lemma length_buffered [simp]: "length (buffered items t) = length items"
  by (induction items arbitrary: t) simp_all

lemma loop_below_size:
  "length (current_batch g) + length items < n \<Longrightarrow>
   generation_loop answer n items g w =
     (g\<lparr>current_batch := current_batch g @ buffered items (clock w),
        processed_count := processed_count g + length items\<rparr>,
      w\<lparr>clock := clock w + 2 * length items\<rparr>)"
proof (induction items arbitrary: g w)
  case Nil
  then show ?case by simp
next
  case (Cons x items)
  let ?g1 = "g\<lparr>current_batch := current_batch g @ [new_op x (clock w)],
        processed_count := Suc (processed_count g)\<rparr>"
  let ?w1 = "w\<lparr>clock := Suc (Suc (clock w))\<rparr>"
  from Cons.prems have "length (current_batch ?g1) + length items < n"
    and small: "\<not> n \<le> length (current_batch ?g1)" by simp_all
  from Cons.IH[OF this(1), of ?w1] small show ?case
    by (simp add: buffer_combination_eq)
qed

lemma bulk_write_trace:
  "bulk_writes (snd (bulk_write r ops w)) = bulk_writes w @ [ops]"
  by (cases r) (simp_all add: bulk_write_def Let_def)

text \<open>
  A batch whose write raises with nothing written is dropped: the store is as it was, the
  batch is empty again, and the one call is the only one made for it.
\<close>

lemma failed_batch_dropped:
  assumes "answer (length (bulk_writes w)) = Bulk_raises e took" and "\<not> (\<exists>b \<in> set took. b)"
  shows "flush_batch answer g w =
     (g\<lparr>current_batch := []\<rparr>, w\<lparr>bulk_writes := bulk_writes w @ [current_batch g]\<rparr>)"
proof -
  have "filter snd (zip ops took) = []" for ops :: "upsert_op list"
    using assms(2) by (auto simp: filter_empty_conv dest: set_zip_rightD)
  then show ?thesis using assms(1)
    by (simp add: flush_batch_def bulk_write_def applied_ops_def)
qed

lemma flush_remaining_trace:
  assumes "current_batch g \<noteq> []"
  shows "bulk_writes (snd (flush_remaining answer g w)) = bulk_writes w @ [current_batch g]"
proof -
  obtain r w' where b: "bulk_write (answer (length (bulk_writes w))) (current_batch g) w = (r, w')"
    by (cases "bulk_write (answer (length (bulk_writes w))) (current_batch g) w")
  with bulk_write_trace[of "answer (length (bulk_writes w))" "current_batch g" w]
  have "bulk_writes w' = bulk_writes w @ [current_batch g]" by simp
  with assms b show ?thesis by (cases r) (simp_all add: flush_remaining_def)
qed

lemma generate_with_world:
  "snd (generate_with n answer locs tags w) =
     (if length (combinations w) = length locs * length employee_ranges_list * length tags then w
      else case generation_loop answer n (List.product locs (List.product employee_ranges_list tags))
                  \<lparr>current_batch = [], new_combinations_count = 0, processed_count = 0\<rparr> w of
             (g1, w1) \<Rightarrow> snd (flush_remaining answer g1 w1))"
  by (simp add: generate_with_def count_documents_def Let_def split: prod.splits)

lemma one_bulk_write:
  assumes "length (combinations w) \<noteq> length locs * length employee_ranges_list * length tags"
    and "0 < length locs * length tags"
    and "length locs * length tags < n"
  shows "bulk_writes (snd (generate_with n answer locs tags w)) =
     bulk_writes w @ [buffered (List.product locs (List.product employee_ranges_list tags)) (clock w)]"
proof -
  let ?items = "List.product locs (List.product employee_ranges_list tags)"
  let ?g0 = "\<lparr>current_batch = [], new_combinations_count = 0, processed_count = 0\<rparr>"
  have one: "length employee_ranges_list = 1" by (simp add: employee_ranges_list_def)
  have len: "length ?items = length locs * length tags"
    by (simp add: one)
  have "length (current_batch ?g0) + length ?items < n" using assms(3) by (simp add: one)
  from loop_below_size[OF this, of answer w]
  have loop: "generation_loop answer n ?items ?g0 w =
     (?g0\<lparr>current_batch := buffered ?items (clock w), processed_count := length ?items\<rparr>,
      w\<lparr>clock := clock w + 2 * length ?items\<rparr>)" by simp
  have ne: "current_batch (?g0\<lparr>current_batch := buffered ?items (clock w),
      processed_count := length ?items\<rparr>) \<noteq> []"
    using assms(2) len by (metis length_buffered length_greater_0_conv gen_state.select_convs(1)
        gen_state.update_convs(1) gen_state.update_convs(3))
  show ?thesis
    unfolding generate_with_world loop using assms(1) flush_remaining_trace[OF ne]
    by simp
qed

lemma query_batch_size: "query rx (opts\<lparr>batch_size := b\<rparr>) = query rx opts"
  by (intro ext) (simp add: query_def)

text \<open>
  C8. The batch size of the generator cannot be set. The command declares the option
  \<open>--batch-size\<close> and never reads it: a run gives the same result for every value of it.
  The generator flushes at its own constant, 100000: a generation of fewer combinations
  than that is one bulk write of all of them.
\<close>

theorem batch_size_option_ignored:
  "handle e (opts\<lparr>batch_size := b\<rparr>) w = handle e opts w \<and>
   (length (combinations w) \<noteq> length locs * length employee_ranges_list * length tags \<longrightarrow>
    0 < length locs * length tags \<longrightarrow> length locs * length tags < 100000 \<longrightarrow>
    bulk_writes (snd (generate_combinations answer locs tags w)) =
      bulk_writes w @ [buffered (List.product locs (List.product employee_ranges_list tags)) (clock w)])"
  by (simp add: handle_def after_checks_def filtered_combinations_def query_batch_size Let_def
      generate_combinations_def one_bulk_write)

theorem batch_size_option_ignored_witness:
  "handle no_headers_env (default_options\<lparr>batch_size := 1\<rparr>) empty_store = handle no_headers_env default_options empty_store \<and>
   map (map fst) (bulk_writes (snd (generate_combinations (\<lambda>k. Bulk_ok) three_cities one_tag empty_store))) =
     [[(''NYC'', ''Tech''), (''LA'', ''Tech''), (''SF'', ''Tech'')]]"
proof -
  have n: "length (combinations empty_store) \<noteq>
      length three_cities * length employee_ranges_list * length one_tag"
    and p: "0 < length three_cities * length one_tag"
    and s: "length three_cities * length one_tag < 100000"
    by (simp_all add: empty_store_def three_cities_def one_tag_def employee_ranges_list_def)
  from batch_size_option_ignored[where e = no_headers_env and opts = default_options and b = 1 and w = empty_store
      and locs = three_cities and tags = one_tag and answer = "\<lambda>k. Bulk_ok"] n p s
  have h: "handle no_headers_env (default_options\<lparr>batch_size := 1\<rparr>) empty_store = handle no_headers_env default_options empty_store"
    and b: "bulk_writes (snd (generate_combinations (\<lambda>k. Bulk_ok) three_cities one_tag empty_store)) =
      bulk_writes empty_store @
      [buffered (List.product three_cities (List.product employee_ranges_list one_tag)) (clock empty_store)]"
    by blast+
  show ?thesis unfolding b using h
    by (simp add: empty_store_def three_cities_def one_tag_def employee_ranges_list_def new_op_def)
qed

section \<open>Properties of the conditional inserts\<close>

lemma fold_upsert_inv:
  assumes "\<And>op docs. G op \<Longrightarrow> Q docs \<Longrightarrow> Q (upsert_one op docs)"
    and "\<forall>op \<in> set ops. G op" and "Q docs"
  shows "Q (fold upsert_one ops docs)"
  using assms(2,3) by (induction ops arbitrary: docs) (simp_all add: assms(1))

lemma applied_ops_subset: "set (applied_ops r ops) \<subseteq> set ops"
  by (cases r) (auto simp: applied_ops_def dest: set_zip_leftD)

lemma bulk_write_store:
  "combinations (snd (bulk_write r ops w)) = fold upsert_one (applied_ops r ops) (combinations w)"
  by (cases r) (simp_all add: bulk_write_def Let_def)

lemma bulk_write_inv:
  assumes "\<And>op docs. G op \<Longrightarrow> Q docs \<Longrightarrow> Q (upsert_one op docs)"
    and "\<forall>op \<in> set ops. G op" and "Q (combinations w)"
  shows "Q (combinations (snd (bulk_write r ops w)))"
  unfolding bulk_write_store
  using assms(2) applied_ops_subset[of r ops] by (intro fold_upsert_inv[of G Q] assms(1,3)) auto

lemma flush_batch_eq:
  "flush_batch answer g w =
     (fst (flush_batch answer g w), snd (bulk_write (answer (length (bulk_writes w))) (current_batch g) w)) \<and>
   current_batch (fst (flush_batch answer g w)) = []"
  by (simp add: flush_batch_def split: prod.splits sum.splits)

lemma flush_remaining_world:
  "snd (flush_remaining answer g w) =
     (if current_batch g \<noteq> [] then snd (bulk_write (answer (length (bulk_writes w))) (current_batch g) w)
      else w)"
  by (simp add: flush_remaining_def split: prod.splits sum.splits)

lemma generation_loop_inv:
  assumes step: "\<And>op docs. G op \<Longrightarrow> Q docs \<Longrightarrow> Q (upsert_one op docs)"
    and new: "\<And>x t. x \<in> set items \<Longrightarrow> G (new_op x t)"
    and "Q (combinations w)" and "\<forall>op \<in> set (current_batch g). G op"
  shows "Q (combinations (snd (generation_loop answer n items g w))) \<and>
         (\<forall>op \<in> set (current_batch (fst (generation_loop answer n items g w))). G op)"
  using new assms(3,4)
proof (induction items arbitrary: g w)
  case Nil
  then show ?case by simp
next
  case (Cons x items)
  let ?g1 = "g\<lparr>current_batch := current_batch g @ [new_op x (clock w)],
        processed_count := Suc (processed_count g)\<rparr>"
  let ?w1 = "w\<lparr>clock := Suc (Suc (clock w))\<rparr>"
  have g1: "\<forall>op \<in> set (current_batch ?g1). G op" using Cons.prems by simp
  have w1: "Q (combinations ?w1)" using Cons.prems by simp
  have new': "\<And>y t. y \<in> set items \<Longrightarrow> G (new_op y t)" using Cons.prems(1) by simp
  show ?case
  proof (cases "n \<le> length (current_batch ?g1)")
    case True
    obtain g2 w2 where f: "flush_batch answer ?g1 ?w1 = (g2, w2)"
      by (cases "flush_batch answer ?g1 ?w1")
    with flush_batch_eq[of answer ?g1 ?w1]
    have w2: "w2 = snd (bulk_write (answer (length (bulk_writes ?w1))) (current_batch ?g1) ?w1)"
      and g2: "current_batch g2 = []" by simp_all
    have "Q (combinations w2)" unfolding w2 by (rule bulk_write_inv[of G Q, OF step g1 w1])
    from Cons.IH[OF new' this, of g2] g2 True f show ?thesis
      by (simp add: buffer_combination_eq)
  next
    case False
    from Cons.IH[OF new' w1 g1] False show ?thesis
      by (simp add: buffer_combination_eq)
  qed
qed

lemma generate_with_inv:
  assumes step: "\<And>op docs. G op \<Longrightarrow> Q docs \<Longrightarrow> Q (upsert_one op docs)"
    and new: "\<And>x t. x \<in> set (List.product locs (List.product employee_ranges_list tags)) \<Longrightarrow> G (new_op x t)"
    and "Q (combinations w)"
  shows "Q (combinations (snd (generate_with n answer locs tags w)))"
proof -
  let ?items = "List.product locs (List.product employee_ranges_list tags)"
  let ?g0 = "\<lparr>current_batch = [], new_combinations_count = 0, processed_count = 0\<rparr>"
  obtain g1 w1 where l: "generation_loop answer n ?items ?g0 w = (g1, w1)"
    by (cases "generation_loop answer n ?items ?g0 w")
  from generation_loop_inv[of G Q ?items w ?g0 answer n, OF step new assms(3)] l
  have "Q (combinations w1)" and "\<forall>op \<in> set (current_batch g1). G op" by simp_all
  then have "Q (combinations (snd (flush_remaining answer g1 w1)))"
    unfolding flush_remaining_world using bulk_write_inv[of G Q, OF step] by simp
  with assms(3) l show ?thesis
    unfolding generate_with_world by simp
qed


section \<open>Properties of repeated generation\<close>

lemma new_op_key:
  "fst (new_op x t) = (fst x, fst (snd (snd x)))" "key_of (snd (new_op x t)) = (fst x, fst (snd (snd x)))"
  by (cases x; simp add: new_op_def key_of_def)+

lemma upsert_prefix: "prefix docs0 docs \<Longrightarrow> prefix docs0 (upsert_one op docs)"
  by (simp add: upsert_one_def)

lemma upsert_distinct:
  "key_of (snd op) = fst op \<Longrightarrow> distinct (map key_of docs) \<Longrightarrow> distinct (map key_of (upsert_one op docs))"
  by (auto simp: upsert_one_def matches_key_of)

lemma upsert_keys:
  assumes "key_of (snd op) = fst op"
  shows "key_of ` set (upsert_one op docs) = insert (fst op) (key_of ` set docs)"
proof (cases "\<exists>d \<in> set docs. matches (fst op) d")
  case True
  then obtain d where "d \<in> set docs" "key_of d = fst op" by (auto simp: matches_key_of)
  then have "fst op \<in> key_of ` set docs" by force
  with True show ?thesis by (simp add: upsert_one_def insert_absorb)
next
  case False
  with assms show ?thesis by (simp add: upsert_one_def)
qed

lemma fold_upsert_keys:
  "\<forall>op \<in> set ops. key_of (snd op) = fst op \<Longrightarrow>
   key_of ` set (fold upsert_one ops docs) = key_of ` set docs \<union> fst ` set ops"
  by (induction ops arbitrary: docs) (auto simp: upsert_keys)

lemma generate_prefix:
  "prefix (combinations w) (combinations (snd (generate_with n answer locs tags w)))"
  by (rule generate_with_inv[of "\<lambda>op. True" "prefix (combinations w)"]) (simp_all add: upsert_prefix)

lemma generate_distinct:
  assumes "distinct (map key_of (combinations w))"
  shows "distinct (map key_of (combinations (snd (generate_with n answer locs tags w))))"
  by (rule generate_with_inv[of "\<lambda>op. key_of (snd op) = fst op" "\<lambda>docs. distinct (map key_of docs)"])
    (simp_all add: upsert_distinct new_op_key assms)

lemma loop_keys:
  assumes ok: "\<forall>k. answer k = Bulk_ok"
    and "\<forall>op \<in> set (current_batch g). key_of (snd op) = fst op"
  shows "key_of ` set (combinations (snd (generation_loop answer n items g w))) \<union>
           fst ` set (current_batch (fst (generation_loop answer n items g w))) =
         key_of ` set (combinations w) \<union> fst ` set (current_batch g) \<union>
           (\<lambda>x. (fst x, fst (snd (snd x)))) ` set items \<and>
         (\<forall>op \<in> set (current_batch (fst (generation_loop answer n items g w))).
            key_of (snd op) = fst op)"
  using assms(2)
proof (induction items arbitrary: g w)
  case Nil
  then show ?case by simp
next
  case (Cons x items)
  let ?g1 = "g\<lparr>current_batch := current_batch g @ [new_op x (clock w)],
        processed_count := Suc (processed_count g)\<rparr>"
  let ?w1 = "w\<lparr>clock := Suc (Suc (clock w))\<rparr>"
  have g1: "\<forall>op \<in> set (current_batch ?g1). key_of (snd op) = fst op"
    using Cons.prems by (simp add: new_op_key)
  show ?case
  proof (cases "n \<le> length (current_batch ?g1)")
    case True
    obtain g2 w2 where f: "flush_batch answer ?g1 ?w1 = (g2, w2)"
      by (cases "flush_batch answer ?g1 ?w1")
    with flush_batch_eq[of answer ?g1 ?w1]
    have w2: "w2 = snd (bulk_write (answer (length (bulk_writes ?w1))) (current_batch ?g1) ?w1)"
      and g2: "current_batch g2 = []" by simp_all
    have "combinations w2 = fold upsert_one (current_batch ?g1) (combinations w)"
      unfolding w2 bulk_write_store using ok by (simp add: applied_ops_def)
    then have k2: "key_of ` set (combinations w2) =
        key_of ` set (combinations w) \<union> fst ` set (current_batch ?g1)"
      using fold_upsert_keys[OF g1] by simp
    have "\<forall>op \<in> set (current_batch g2). key_of (snd op) = fst op" using g2 by simp
    from Cons.IH[OF this, of w2] True f g2 k2 show ?thesis
      by (simp add: buffer_combination_eq new_op_key Un_ac insert_commute)
  next
    case False
    from Cons.IH[OF g1, of ?w1] False show ?thesis
      by (simp add: buffer_combination_eq new_op_key Un_ac insert_commute)
  qed
qed

lemma product_pairs:
  "(\<lambda>x. (fst x, fst (snd (snd x)))) ` (set locs \<times> set employee_ranges_list \<times> set tags) =
   set locs \<times> fst ` set tags"
  by (force simp: employee_ranges_list_def image_iff)

lemma generate_keys:
  assumes ok: "\<forall>k. answer k = Bulk_ok"
    and "length (combinations w) \<noteq> length locs * length employee_ranges_list * length tags"
  shows "key_of ` set (combinations (snd (generate_with n answer locs tags w))) =
         key_of ` set (combinations w) \<union> set locs \<times> fst ` set tags"
proof -
  let ?items = "List.product locs (List.product employee_ranges_list tags)"
  let ?g0 = "\<lparr>current_batch = [], new_combinations_count = 0, processed_count = 0\<rparr>"
  obtain g1 w1 where l: "generation_loop answer n ?items ?g0 w = (g1, w1)"
    by (cases "generation_loop answer n ?items ?g0 w")
  from loop_keys[OF ok, of ?g0 n ?items w] l
  have k: "key_of ` set (combinations w1) \<union> fst ` set (current_batch g1) =
      key_of ` set (combinations w) \<union> set locs \<times> fst ` set tags"
    and g: "\<forall>op \<in> set (current_batch g1). key_of (snd op) = fst op"
    by (simp_all add: product_pairs)
  have "combinations (snd (flush_remaining answer g1 w1)) =
      fold upsert_one (current_batch g1) (combinations w1)"
    by (simp add: flush_remaining_world bulk_write_store applied_ops_def ok)
  then have "key_of ` set (combinations (snd (flush_remaining answer g1 w1))) =
      key_of ` set (combinations w1) \<union> fst ` set (current_batch g1)"
    using fold_upsert_keys[OF g] by simp
  with k l assms(2) show ?thesis unfolding generate_with_world by simp
qed

lemma count_matches_total:
  assumes "distinct (map key_of docs)" and "key_of ` set docs \<subseteq> set locs \<times> fst ` set tags"
    and "length docs = length locs * length employee_ranges_list * length tags"
  shows "key_of ` set docs = set locs \<times> fst ` set tags"
proof (rule card_seteq)
  show "finite (set locs \<times> fst ` set tags)" by simp
  show "key_of ` set docs \<subseteq> set locs \<times> fst ` set tags" by fact
  have "card (set locs \<times> fst ` set tags) = card (set locs) * card (fst ` set tags)"
    by (rule card_cartesian_product)
  also have "\<dots> \<le> length locs * length tags"
    by (intro mult_le_mono card_length) (metis card_length list.set_map length_map)
  also have "\<dots> = length docs" using assms(3) by (simp add: employee_ranges_list_def)
  also have "\<dots> = card (key_of ` set docs)"
    using distinct_card[OF assms(1)] by simp
  finally show "card (set locs \<times> fst ` set tags) \<le> card (key_of ` set docs)" .
qed

lemma one_generation:
  assumes ok: "\<forall>k. answer k = Bulk_ok"
    and d: "distinct (map key_of (combinations w))"
    and k: "key_of ` set (combinations w) \<subseteq> set locs \<times> fst ` set tags"
  shows "key_of ` set (combinations (snd (generate_with n answer locs tags w))) =
         set locs \<times> fst ` set tags"
proof (cases "length (combinations w) = length locs * length employee_ranges_list * length tags")
  case True
  with count_matches_total[OF d k True] show ?thesis unfolding generate_with_world by simp
next
  case False
  from generate_keys[OF ok False] k show ?thesis by auto
qed

lemma generate_times_inv:
  assumes "\<forall>k. answer k = Bulk_ok"
    and "distinct (map key_of (combinations w))"
    and "key_of ` set (combinations w) \<subseteq> set locs \<times> fst ` set tags"
  shows "distinct (map key_of (combinations (generate_times n answer locs tags w))) \<and>
         key_of ` set (combinations (generate_times n answer locs tags w)) \<subseteq> set locs \<times> fst ` set tags"
proof (induction n)
  case 0
  with assms show ?case by simp
next
  case (Suc n)
  with one_generation[OF assms(1)] generate_distinct show ?case
    by (simp add: generate_combinations_def)
qed

lemma generate_times_prefix:
  "prefix (combinations w) (combinations (generate_times n answer locs tags w))"
proof (induction n)
  case 0
  show ?case by simp
next
  case (Suc n)
  then show ?case
    using generate_prefix prefix_order.trans by (fastforce simp: generate_combinations_def)
qed

lemma count_key:
  assumes "distinct (map key_of docs)" and "k \<in> key_of ` set docs"
  shows "length (filter (matches k) docs) = 1"
proof -
  have "length (filter (\<lambda>d. key_of d = k) docs) = 1"
    using assms
  proof (induction docs)
    case Nil
    then show ?case by simp
  next
    case (Cons d docs)
    show ?case
    proof (cases "key_of d = k")
      case True
      with Cons.prems(1) have "k \<notin> key_of ` set docs" by simp
      then have "\<forall>x \<in> set docs. key_of x \<noteq> k" by blast
      then have "filter (\<lambda>d. key_of d = k) docs = []" by (simp add: filter_empty_conv)
      with True show ?thesis by simp
    next
      case False
      with Cons show ?thesis by auto
    qed
  qed
  moreover have "matches k = (\<lambda>d. key_of d = k)" by (intro ext) (simp add: matches_key_of)
  ultimately show ?thesis by simp
qed

text \<open>
  C1. Take a store with the unique index on (location, industry name) in place that holds
  no combination outside the cross-product of the data files, and bulk writes that all
  succeed. After one or more runs of \<open>generate_combinations\<close> in a row there is exactly
  one document for every pair of a location and an industry name of the cross-product.
  Whatever the store holds and whatever the bulk writes answer, the combinations stored
  before the runs are still there, in place and with every field as it was: a run only
  appends documents.
\<close>

theorem generation_idempotent:
  assumes "distinct (map key_of (combinations w))"
    and "\<forall>d \<in> set (combinations w). location d \<in> set locs \<and> industry_name d \<in> fst ` set tags"
    and "\<forall>k. answer k = Bulk_ok"
    and "0 < n"
  shows "(\<forall>loc \<in> set locs. \<forall>tag \<in> set tags.
            length (filter (matches (loc, fst tag))
              (combinations (generate_times n answer locs tags w))) = 1) \<and>
         prefix (combinations v) (combinations (generate_times m other locs tags v))"
proof -
  from assms(4) obtain j where n: "n = Suc j" by (cases n) auto
  have k: "key_of ` set (combinations w) \<subseteq> set locs \<times> fst ` set tags"
    using assms(2) by (auto simp: key_of_def)
  let ?wj = "generate_times j answer locs tags w"
  from generate_times_inv[OF assms(3,1) k, of j]
  have dj: "distinct (map key_of (combinations ?wj))"
    and kj: "key_of ` set (combinations ?wj) \<subseteq> set locs \<times> fst ` set tags" by simp_all
  from generate_times_inv[OF assms(3,1) k, of n]
  have dn: "distinct (map key_of (combinations (generate_times n answer locs tags w)))" by simp
  from one_generation[OF assms(3) dj kj, of 100000]
  have kn: "key_of ` set (combinations (generate_times n answer locs tags w)) =
      set locs \<times> fst ` set tags"
    by (simp add: n generate_combinations_def)
  have "length (filter (matches (loc, fst tag))
          (combinations (generate_times n answer locs tags w))) = 1"
    if "loc \<in> set locs" "tag \<in> set tags" for loc tag
    using that by (intro count_key[OF dn]) (simp add: kn)
  with generate_times_prefix show ?thesis by blast
qed

text \<open>
  A store that holds as many documents as there are combinations, one of them outside the
  cross-product: every run skips the generation, and the pair of the cross-product never
  gets its document.
\<close>

theorem stray_document_counterexample:
  "filter (matches (''NYC'', ''Tech''))
     (combinations (generate_times 2 (\<lambda>k. Bulk_ok) [''NYC''] [(''Tech'', ''t1'')] stray_world)) = []"
  by (simp add: numeral_2_eq_2 generate_combinations_def generate_with_world stray_world_def
      stray_doc_def employee_ranges_list_def matches_def)

theorem generation_idempotent_witness:
  "length (filter (matches (''LA'', ''Tech''))
     (combinations (generate_times 2 (\<lambda>k. Bulk_ok) three_cities one_tag empty_store))) = 1 \<and>
   prefix (combinations stray_world)
     (combinations (generate_times 2 (\<lambda>k. Bulk_raises BulkWriteError []) three_cities one_tag stray_world))"
proof -
  have h: "distinct (map key_of (combinations empty_store))"
    "\<forall>d \<in> set (combinations empty_store). location d \<in> set three_cities \<and> industry_name d \<in> fst ` set one_tag"
    "\<forall>k. (\<lambda>k. Bulk_ok) k = Bulk_ok" "0 < (2::nat)"
    by (simp_all add: empty_store_def)
  have m: "''LA'' \<in> set three_cities" "(''Tech'', ''t1'') \<in> set one_tag"
    by (simp_all add: three_cities_def one_tag_def)
  from generation_idempotent[OF h, of stray_world 2 "\<lambda>k. Bulk_raises BulkWriteError []"] m
  show ?thesis by fastforce
qed

end
